theory Spec2Isabelle
  imports Main
begin

section \<open>Running JavaScript code: outcomes and effects\<close>

text \<open>
  The library is a handful of TypeScript closures over strings.  A call of such a
  closure can do three things that a plain HOL function cannot: it can fail to return
  (a parser or a continuation supplied by the caller may loop), it can throw (calling a
  value that is not a function is a \<open>TypeError\<close>, pushing onto a full array is a
  \<open>RangeError\<close>), and a user-supplied function can have side effects (the counting probe
  that the specification uses to observe whether an alternative was forced).
  A computation is therefore a function from the state of the world before the call to
  \<^item> \<open>None\<close> when the call never returns,
  \<^item> \<open>Some (Inl e, \<sigma>')\<close> when it throws \<open>e\<close>,
  \<^item> \<open>Some (Inr x, \<sigma>')\<close> when it returns \<open>x\<close>,
  where \<open>\<sigma>'\<close> is the state after the call.  The state type \<open>'s\<close> is arbitrary; the library
  itself never touches it.
\<close>

datatype error = TypeError | RangeError

text \<open>
  An array holds at most \<open>2\<^sup>3\<^sup>2 - 1\<close> elements: \<open>push\<close> on an array of that length
  throws a \<open>RangeError\<close>.
\<close>

definition max_array_length :: nat where
  "max_array_length = 2 ^ 32 - 1"

type_synonym ('s, 'r) run = "'s \<Rightarrow> ((error + 'r) \<times> 's) option"

definition returns :: "'r \<Rightarrow> ('s, 'r) run" where
  "returns x = (\<lambda>\<sigma>. Some (Inr x, \<sigma>))"

definition throws :: "error \<Rightarrow> ('s, 'r) run" where
  "throws e = (\<lambda>\<sigma>. Some (Inl e, \<sigma>))"

text \<open>Sequencing of two computations: the second runs on what the first returned.\<close>

definition and_then :: "('s, 'a) run \<Rightarrow> ('a \<Rightarrow> ('s, 'b) run) \<Rightarrow> ('s, 'b) run" where
  "and_then m k = (\<lambda>\<sigma>. case m \<sigma> of
       None \<Rightarrow> None
     | Some (Inl e, \<sigma>') \<Rightarrow> Some (Inl e, \<sigma>')
     | Some (Inr x, \<sigma>') \<Rightarrow> k x \<sigma>')"

section \<open>Fundamental blocks\<close>

text \<open>
  \<^verbatim>\<open>type ParserRes<T> = [T, string][]\<close> and
  \<^verbatim>\<open>type Parser<T> = (inp: string) => ParserRes<T>\<close>.
  The empty list means that the parser has failed.  A JavaScript string is a sequence of
  code units; none of the functions below looks inside a unit, so \<^typ>\<open>string\<close> stands
  for it.  A one-character string such as \<open>inp[0]\<close> is a list of length one.
\<close>

type_synonym 'a ParserRes = "('a \<times> string) list"

type_synonym ('s, 'a) Parser = "string \<Rightarrow> ('s, 'a ParserRes) run"

definition parserHasFailed :: "'a ParserRes \<Rightarrow> bool" where
  "parserHasFailed result = (length result = 0)"

subsection \<open>Thunks\<close>

text \<open>
  \<^verbatim>\<open>type LazyVal<A> = (() => A) | A\<close>, used at \<open>A = Parser<T>\<close>.  Both alternatives are
  function values, and \<open>isImmediate\<close> tells them apart at run time by \<open>typeof\<close> and by
  the declared number of parameters \<open>t.length\<close>.  So a value of this type is modelled
  with what the test and the two possible calls can observe:
  \<^item> \<open>ParserValue n p u\<close> is a \<open>Parser<T>\<close> declared with \<open>n\<close> parameters; applied to an
    input it behaves as \<open>p\<close>, and called without an argument it evaluates to the result
    list \<open>u\<close>;
  \<^item> \<open>ThunkValue f\<close> is a \<open>() => Parser<T>\<close>: it declares no parameter, and calling it
    runs \<open>f ()\<close>, which may have effects, and yields a parser.
\<close>

datatype ('s, 'a) LazyVal =
    ParserValue nat "('s, 'a) Parser" "('s, 'a ParserRes) run"
  | ThunkValue "unit \<Rightarrow> ('s, ('s, 'a) Parser) run"

text \<open>What \<open>force\<close> hands back: a function that can be applied, or an array that cannot.\<close>

datatype ('s, 'a) Forced =
    Callable "('s, 'a) Parser"
  | NotCallable "'a ParserRes"

definition typeof :: "('s, 'a) LazyVal \<Rightarrow> string" where
  "typeof t = ''function''"

fun fn_length :: "('s, 'a) LazyVal \<Rightarrow> nat" where
  "fn_length (ParserValue n p u) = n"
| "fn_length (ThunkValue f) = 0"

text \<open>\<^verbatim>\<open>return (typeof t != "function" || t.length != 0)\<close>\<close>

definition isImmediate :: "('s, 'a) LazyVal \<Rightarrow> bool" where
  "isImmediate t = (typeof t \<noteq> ''function'' \<or> fn_length t \<noteq> 0)"

text \<open>
  \<^verbatim>\<open>const force = (t) => isImmediate(t) ? t : t()\<close>.
  For a \<open>ThunkValue\<close> the test is always false (it declares no parameter), so only the
  call \<open>t()\<close> is written out.
\<close>

fun force :: "('s, 'a) LazyVal \<Rightarrow> ('s, ('s, 'a) Forced) run" where
  "force (ParserValue n p u) =
     (if isImmediate (ParserValue n p u) then returns (Callable p)
      else and_then u (\<lambda>r. returns (NotCallable r)))"
| "force (ThunkValue f) = and_then (f ()) (\<lambda>p. returns (Callable p))"

text \<open>Applying what \<open>force\<close> returned to the input: \<^verbatim>\<open>force(parserB)(inp)\<close>.\<close>

fun apply_forced :: "('s, 'a) Forced \<Rightarrow> ('s, 'a) Parser" where
  "apply_forced (Callable p) inp = p inp"
| "apply_forced (NotCallable r) inp = throws TypeError"

subsection \<open>Functor, applicative, monad\<close>

definition fmap :: "('a \<Rightarrow> 'b) \<Rightarrow> ('s, 'a) Parser \<Rightarrow> ('s, 'b) Parser" where
  "fmap fn parser = (\<lambda>inp.
     and_then (parser inp) (\<lambda>res.
       if parserHasFailed res then returns []
       else (case res ! 0 of (v, out) \<Rightarrow> returns [(fn v, out)])))"

definition pure :: "'a \<Rightarrow> ('s, 'a) Parser" where
  "pure a = (\<lambda>inp. returns [(a, inp)])"

definition empty :: "('s, 'a) Parser" where
  "empty = (\<lambda>_. returns [])"

text \<open>
  \<open>empty()\<close> returns the arrow function \<^verbatim>\<open>() => []\<close>: it declares no parameter, and its
  body is \<open>[]\<close> whether or not an argument is passed.  This is that function as a value
  of type \<open>LazyVal<Parser<T>>\<close>.
\<close>

definition emptyValue :: "('s, 'a) LazyVal" where
  "emptyValue = ParserValue 0 empty (returns [])"

definition bind :: "('s, 'a) Parser \<Rightarrow> ('a \<Rightarrow> ('s, 'b) Parser) \<Rightarrow> ('s, 'b) Parser" where
  "bind parser fn = (\<lambda>inp.
     and_then (parser inp) (\<lambda>res.
       if parserHasFailed res then returns []
       else (case res ! 0 of (v, out) \<Rightarrow> fn v out)))"

definition ap :: "('s, 'a \<Rightarrow> 'b) Parser \<Rightarrow> ('s, 'a) Parser \<Rightarrow> ('s, 'b) Parser" where
  "ap parserFn parserA = bind parserFn (\<lambda>fn. fmap fn parserA)"

section \<open>Primitives\<close>

text \<open>
  \<open>liftAs(fn, ...fns)\<close> is variadic over a curried \<open>fn: any\<close>:
  \<^verbatim>\<open>fns.slice(1).reduce((a, b) => ap(a, b), fmap(fn, fns[0]))\<close>.
  Each \<open>ap\<close> of the fold has a different type, so the fold is written out for the
  numbers of parsers the library uses; with none, \<open>fn\<close> itself is returned.
\<close>

definition liftAs0 :: "('s, 'a) Parser \<Rightarrow> ('s, 'a) Parser" where
  "liftAs0 fn = fn"

definition liftAs1 :: "('a \<Rightarrow> 'b) \<Rightarrow> ('s, 'a) Parser \<Rightarrow> ('s, 'b) Parser" where
  "liftAs1 fn p0 = fmap fn p0"

definition liftAs2 ::
  "('a \<Rightarrow> 'b \<Rightarrow> 'c) \<Rightarrow> ('s, 'a) Parser \<Rightarrow> ('s, 'b) Parser \<Rightarrow> ('s, 'c) Parser" where
  "liftAs2 fn p0 p1 = ap (fmap fn p0) p1"

definition liftAs3 ::
  "('a \<Rightarrow> 'b \<Rightarrow> 'c \<Rightarrow> 'd) \<Rightarrow> ('s, 'a) Parser \<Rightarrow> ('s, 'b) Parser \<Rightarrow> ('s, 'c) Parser
     \<Rightarrow> ('s, 'd) Parser" where
  "liftAs3 fn p0 p1 p2 = ap (ap (fmap fn p0) p1) p2"

subsection \<open>Ordered choice\<close>

definition alt :: "('s, 'a) Parser \<Rightarrow> ('s, 'a) LazyVal \<Rightarrow> ('s, 'a) Parser" where
  "alt parserA parserB = (\<lambda>inp.
     and_then (parserA inp) (\<lambda>res.
       if parserHasFailed res
       then and_then (force parserB) (\<lambda>forced. apply_forced forced inp)
       else returns res))"

text \<open>
  The earlier \<open>alt\<close> of \<^verbatim>\<open>src/index.ts\<close>, whose second parameter is always a
  deferred reference: \<^verbatim>\<open>if (res.length === 0) return parserB()(inp)\<close>.
\<close>

definition alt_deferred ::
  "('s, 'a) Parser \<Rightarrow> (unit \<Rightarrow> ('s, ('s, 'a) Parser) run) \<Rightarrow> ('s, 'a) Parser" where
  "alt_deferred parserA parserB = (\<lambda>inp.
     and_then (parserA inp) (\<lambda>res.
       if length res = 0 then and_then (parserB ()) (\<lambda>p. p inp)
       else returns res))"

text \<open>
  \<open>Array.prototype.reduce\<close> without an initial value: the first element starts the
  accumulator, and an empty array is a \<open>TypeError\<close>.
\<close>

fun reduce :: "('a \<Rightarrow> 'a \<Rightarrow> 'a) \<Rightarrow> 'a list \<Rightarrow> error + 'a" where
  "reduce f [] = Inl TypeError"
| "reduce f (x # xs) = Inr (foldl f x xs)"

text \<open>
  \<^verbatim>\<open>parsers.reduce((acc, curr) => () => alt(acc(), curr))()\<close>: the fold builds a thunk and
  the trailing \<open>()\<close> calls it, so building the parser is itself a computation.
\<close>

definition alts ::
  "(unit \<Rightarrow> ('s, ('s, 'a) Parser) run) list \<Rightarrow> ('s, ('s, 'a) Parser) run" where
  "alts parsers =
     (case reduce (\<lambda>acc curr. (\<lambda>_. and_then (acc ()) (\<lambda>a. returns (alt a (ThunkValue curr)))))
             parsers of
        Inl e \<Rightarrow> throws e
      | Inr thunk \<Rightarrow> thunk ())"

subsection \<open>Repetition\<close>

text \<open>
  The \<open>while\<close> loop of \<open>many\<close>, entered with the loop variables \<open>result\<close>, \<open>currentInp\<close>
  and \<open>out\<close>.  Every round pushes onto \<open>result\<close> before it calls the parser again, and
  \<^verbatim>\<open>result.push(v)\<close> throws once the array is full; so the loop itself always ends, by
  the exit of the \<open>while\<close>, by that \<open>RangeError\<close>, or by what the parser throws.  The
  result is \<open>None\<close> only when a call of the parser does not return.
\<close>

function many_loop ::
  "('s, 'a) Parser \<Rightarrow> 'a list \<Rightarrow> string \<Rightarrow> 'a ParserRes \<Rightarrow> 's
     \<Rightarrow> ((error + 'a list ParserRes) \<times> 's) option"
where
  "many_loop parser result currentInp out \<sigma> =
     (if length out \<noteq> 0 then
        (case out ! 0 of (v, remainingInp) \<Rightarrow>
           if max_array_length \<le> length result then Some (Inl RangeError, \<sigma>)
           else
             (case parser remainingInp \<sigma> of
                None \<Rightarrow> None
              | Some (Inl e, \<sigma>') \<Rightarrow> Some (Inl e, \<sigma>')
              | Some (Inr out', \<sigma>') \<Rightarrow> many_loop parser (result @ [v]) remainingInp out' \<sigma>'))
      else Some (Inr [(result, currentInp)], \<sigma>))"
  by pat_completeness auto
termination
  by (relation "measure (\<lambda>(parser, result, currentInp, out, \<sigma>). max_array_length - length result)")
    auto

declare many_loop.simps [simp del]

definition many :: "('s, 'a) Parser \<Rightarrow> ('s, 'a list) Parser" where
  "many parser = (\<lambda>inp. and_then (parser inp) (\<lambda>out. many_loop parser [] inp out))"

text \<open>
  \<^verbatim>\<open>const [[v]] = res\<close> destructures the first entry; on an empty array that is a
  \<open>TypeError\<close>.
\<close>

definition some :: "('s, 'a) Parser \<Rightarrow> ('s, 'a list) Parser" where
  "some parser = (\<lambda>inp.
     and_then (many parser inp) (\<lambda>res.
       case res of
         [] \<Rightarrow> throws TypeError
       | (v, _) # _ \<Rightarrow> if length v = 0 then returns [] else returns res))"

subsection \<open>Character parsers\<close>

text \<open>
  \<open>take\<close>, written \<open>take_p\<close> here since \<^const>\<open>take\<close> is the list function:
  \<^verbatim>\<open>inp.length > 0 ? [[inp[0], inp.slice(1)]] : []\<close>
\<close>

definition take_p :: "('s, string) Parser" where
  "take_p = (\<lambda>inp. if length inp > 0 then returns [([inp ! 0], drop 1 inp)] else returns [])"

text \<open>\<^verbatim>\<open>[[inp[0] || "", inp]]\<close>: \<open>inp[0]\<close> is \<open>undefined\<close> on the empty string.\<close>

definition peek :: "('s, string) Parser" where
  "peek = (\<lambda>inp. returns [(if 0 < length inp then [inp ! 0] else '''', inp)])"

text \<open>
  \<^verbatim>\<open>liftAs((x: string) => Number(x), take)\<close>.  \<open>Number\<close> is the JavaScript conversion of
  a string to a floating point number; it is a parameter here.
\<close>

definition takeDigit :: "(string \<Rightarrow> 'n) \<Rightarrow> ('s, 'n) Parser" where
  "takeDigit Number = liftAs1 (\<lambda>x. Number x) take_p"

definition sentence :: "string \<Rightarrow> ('s, string) Parser" where
  "sentence str = (\<lambda>inp.
     if length inp < length str then returns []
     else (let former = take (length str) inp;
               latter = drop (length str) (take (length inp) inp)
           in if former = str then returns [(former, latter)] else returns []))"

definition sat :: "(string \<Rightarrow> bool) \<Rightarrow> ('s, string) Parser" where
  "sat pred = bind take_p (\<lambda>x. if pred x then pure x else empty)"

definition eq :: "'a \<Rightarrow> 'a \<Rightarrow> bool" where
  "eq x = (\<lambda>y. x = y)"

text \<open>
  \<open>/[...]/.test(c)\<close> for a character class: some code unit of \<open>c\<close> is in the class.
\<close>

definition class_test :: "string \<Rightarrow> string \<Rightarrow> bool" where
  "class_test cls c = list_ex (\<lambda>ch. ch \<in> set cls) c"

definition alpha :: "('s, string) Parser" where
  "alpha = sat (class_test ''abcdefghijklmnopqrstuvwxyzABCDEFGHIJKLMNOPQRSTUVWXYZ'')"

definition numeric :: "('s, string) Parser" where
  "numeric = sat (class_test ''0123456789'')"

text \<open>\<^verbatim>\<open>alt(alpha, () => numeric)\<close>\<close>

definition aphaNumeric :: "('s, string) Parser" where
  "aphaNumeric = alt alpha (ThunkValue (\<lambda>_. returns numeric))"

definition space :: "('s, string) Parser" where
  "space = sat (eq '' '')"

definition char :: "string \<Rightarrow> ('s, string) Parser" where
  "char c = sat (eq c)"

text \<open>\<^verbatim>\<open>sat(c => /[\n\t ]/.test(c))\<close>\<close>

definition whitespace :: "('s, string) Parser" where
  "whitespace = sat (class_test [CHR 0x0A, CHR 0x09, CHR '' ''])"

text \<open>
  \<^verbatim>\<open>liftAs(() => (res: T) => () => res, many(whitespace), parser, many(whitespace))\<close>
\<close>

definition token :: "('s, 'a) Parser \<Rightarrow> ('s, 'a) Parser" where
  "token parser =
     liftAs3 (\<lambda>_ res _. res) (many whitespace) parser (many whitespace)"

subsection \<open>Extraction\<close>

text \<open>
  \<open>T | undefined\<close> is an untagged union: \<open>undefined\<close> is a value like any other, and a
  parser can produce it (\<open>pure(undefined)\<close>, \<open>tap\<close>).  The values \<open>unpack\<close> deals with are
  therefore of a type that has \<open>undefined\<close> among its elements, and what \<open>unpack\<close> returns
  on a failure is the same value that a parser may have parsed.  A parser whose values
  are never \<open>undefined\<close> is used at this type through \<open>fmap Defined\<close>, which is no
  operation in JavaScript.
\<close>

datatype 'a or_undefined = Undefined | Defined 'a

definition unpack ::
  "('s, 'a or_undefined) Parser \<Rightarrow> string \<Rightarrow> ('s, 'a or_undefined) run" where
  "unpack parser = (\<lambda>inp.
     and_then (parser inp) (\<lambda>res.
       if parserHasFailed res then returns Undefined
       else if snd (res ! 0) \<noteq> '''' then returns Undefined
       else returns (fst (res ! 0))))"

text \<open>
  \<^verbatim>\<open>tap(tapFn)\<close> calls \<open>tapFn\<close> on the input for its effect and succeeds with the value
  \<open>undefined\<close>, consuming nothing.
\<close>

definition tap :: "(string \<Rightarrow> ('s, unit) run) \<Rightarrow> ('s, 'a or_undefined) Parser" where
  "tap tapFn = (\<lambda>inp. and_then (tapFn inp) (\<lambda>_. returns [(Undefined, inp)]))"

section \<open>Properties of parsers used in the statements\<close>

text \<open>A parser never hands back more than one entry.\<close>

definition single_outcome :: "('s, 'a) Parser \<Rightarrow> bool" where
  "single_outcome p = (\<forall>inp \<sigma> res \<sigma>'. p inp \<sigma> = Some (Inr res, \<sigma>') \<longrightarrow> length res \<le> 1)"

definition thunk_single_outcome :: "(unit \<Rightarrow> ('s, ('s, 'a) Parser) run) \<Rightarrow> bool" where
  "thunk_single_outcome f = (\<forall>\<sigma> p \<sigma>'. f () \<sigma> = Some (Inr p, \<sigma>') \<longrightarrow> single_outcome p)"

fun lazy_single_outcome :: "('s, 'a) LazyVal \<Rightarrow> bool" where
  "lazy_single_outcome (ParserValue n p u) = single_outcome p"
| "lazy_single_outcome (ThunkValue f) = thunk_single_outcome f"





text \<open>
  What the parser built by \<open>alts\<close> does with the alternatives after the first, given the
  result so far: a deferred alternative is called, and the parser it yields is run, only
  when that result is a failure.
\<close>

fun try_next ::
  "(unit \<Rightarrow> ('s, ('s, 'a) Parser) run) list \<Rightarrow> string \<Rightarrow> 'a ParserRes \<Rightarrow> ('s, 'a ParserRes) run"
where
  "try_next [] inp res = returns res"
| "try_next (t # ts) inp res =
     (if parserHasFailed res then and_then (t ()) (\<lambda>p. and_then (p inp) (try_next ts inp))
      else returns res)"

text \<open>
  A counting probe in the place of the \<open>i\<close>-th deferred alternative: calling it adds one
  to the counter \<open>i\<close> of the state and yields \<open>p\<close>.  \<open>effect_free r\<close> is a parser that
  returns \<open>r inp\<close> and leaves the state alone; \<open>probes rs\<close> are the probes for a list of
  such parsers, numbered from \<open>0\<close>.
\<close>

definition probe ::
  "nat \<Rightarrow> (nat \<Rightarrow> nat, 'a) Parser \<Rightarrow> unit \<Rightarrow> (nat \<Rightarrow> nat, (nat \<Rightarrow> nat, 'a) Parser) run" where
  "probe i p = (\<lambda>_ \<sigma>. Some (Inr p, \<sigma>(i := Suc (\<sigma> i))))"

definition effect_free :: "(string \<Rightarrow> 'a ParserRes) \<Rightarrow> ('s, 'a) Parser" where
  "effect_free r = (\<lambda>inp. returns (r inp))"

definition probes ::
  "(string \<Rightarrow> 'a ParserRes) list \<Rightarrow> (unit \<Rightarrow> (nat \<Rightarrow> nat, (nat \<Rightarrow> nat, 'a) Parser) run) list" where
  "probes rs = map (\<lambda>i. probe i (effect_free (rs ! i))) [0..<length rs]"

section \<open>Computations, step by step\<close>

lemmas run_defs = returns_def throws_def and_then_def

lemma isImmediate_ThunkValue: "\<not> isImmediate (ThunkValue f)"
  by (simp add: isImmediate_def typeof_def)

lemma isImmediate_ParserValue: "isImmediate (ParserValue n p u) \<longleftrightarrow> n \<noteq> 0"
  by (simp add: isImmediate_def typeof_def)

lemma take_p_Nil: "take_p [] = returns []"
  by (simp add: take_p_def)

lemma take_p_Cons: "take_p (c # cs) = returns [([c], cs)]"
  by (simp add: take_p_def)



section \<open>The loop of \<open>many\<close>\<close>

lemma max_array_length_pos: "0 < max_array_length"
  by (simp add: max_array_length_def)

lemma many_loop_done:
  "many_loop p result cur [] \<sigma> = Some (Inr [(result, cur)], \<sigma>)"
  by (subst many_loop.simps) simp

lemma many_loop_full:
  assumes "out \<noteq> []" "max_array_length \<le> length result"
  shows "many_loop p result cur out \<sigma> = Some (Inl RangeError, \<sigma>)"
  using assms by (subst many_loop.simps) (simp split: prod.splits)

lemma many_loop_step:
  assumes "out \<noteq> []" "out ! 0 = (v, rem)" "length result < max_array_length"
    "p rem \<sigma> = Some (Inr out', \<sigma>1)"
  shows "many_loop p result cur out \<sigma> = many_loop p (result @ [v]) rem out' \<sigma>1"
  using assms by (subst many_loop.simps) simp

lemma many_loop_throw:
  assumes "out \<noteq> []" "out ! 0 = (v, rem)" "length result < max_array_length"
    "p rem \<sigma> = Some (Inl e, \<sigma>1)"
  shows "many_loop p result cur out \<sigma> = Some (Inl e, \<sigma>1)"
  using assms by (subst many_loop.simps) simp

lemma many_loop_no_return:
  assumes "out \<noteq> []" "out ! 0 = (v, rem)" "length result < max_array_length"
    "p rem \<sigma> = None"
  shows "many_loop p result cur out \<sigma> = None"
  using assms by (subst many_loop.simps) simp


text \<open>Whenever the loop returns, it returns exactly one entry.\<close>

lemma many_loop_returns_one:
  "many_loop p result cur out \<sigma> = Some (Inr res, \<sigma>') \<Longrightarrow> \<exists>vs rest. res = [(vs, rest)]"
proof (induction "max_array_length - length result" arbitrary: result cur out \<sigma>)
  case 0
  then have full: "max_array_length \<le> length result" by simp
  show ?case
  proof (cases "out = []")
    case True
    with 0(2) show ?thesis by (auto simp add: many_loop_done)
  next
    case False
    with 0(2) full show ?thesis by (simp add: many_loop_full)
  qed
next
  case (Suc m)
  then have room: "length result < max_array_length" by simp
  show ?case
  proof (cases "out = []")
    case True
    with Suc.prems show ?thesis by (auto simp add: many_loop_done)
  next
    case False
    obtain v rem where hd: "out ! 0 = (v, rem)" by (cases "out ! 0")
    show ?thesis
    proof (cases "p rem \<sigma>")
      case None
      with Suc.prems False hd room show ?thesis by (simp add: many_loop_no_return)
    next
      case (Some r)
      obtain x \<sigma>1 where r: "r = (x, \<sigma>1)" by (cases r)
      show ?thesis
      proof (cases x)
        case (Inl e)
        with Some r have "p rem \<sigma> = Some (Inl e, \<sigma>1)" by simp
        from many_loop_throw [where p = p and \<sigma> = \<sigma>, OF False hd room this] Suc.prems show ?thesis by simp
      next
        case (Inr out')
        with Some r have "p rem \<sigma> = Some (Inr out', \<sigma>1)" by simp
        from many_loop_step [where p = p and \<sigma> = \<sigma>, OF False hd room this] Suc.prems
        have "many_loop p (result @ [v]) rem out' \<sigma>1 = Some (Inr res, \<sigma>')" by simp
        moreover from Suc.hyps(2) have "m = max_array_length - length (result @ [v])" by simp
        ultimately show ?thesis by (rule Suc.hyps(1) [rotated])
      qed
    qed
  qed
qed




section \<open>At most one outcome\<close>

lemma single_pure: "single_outcome (pure v)"
  by (auto simp: single_outcome_def pure_def run_defs)

lemma single_empty: "single_outcome empty"
  by (auto simp: single_outcome_def empty_def run_defs)

lemma single_fmap: "single_outcome (fmap fn p)"
  by (auto simp: single_outcome_def fmap_def run_defs parserHasFailed_def
      split: option.splits sum.splits prod.splits if_splits)

lemma single_bind: "(\<forall>v. single_outcome (fn v)) \<Longrightarrow> single_outcome (bind p fn)"
  unfolding single_outcome_def bind_def and_then_def parserHasFailed_def returns_def
  by (auto split: option.splits sum.splits prod.splits if_splits)

lemma single_ap: "single_outcome (ap pf pa)"
  unfolding ap_def by (rule single_bind) (simp add: single_fmap)

lemma single_take_p: "single_outcome take_p"
  by (auto simp: single_outcome_def take_p_def run_defs split: if_splits)

lemma single_peek: "single_outcome peek"
  by (auto simp: single_outcome_def peek_def run_defs split: if_splits)

lemma single_sentence: "single_outcome (sentence str)"
  by (auto simp: single_outcome_def sentence_def Let_def run_defs split: if_splits)

lemma single_sat: "single_outcome (sat pred)"
  unfolding sat_def by (rule single_bind) (simp add: single_pure single_empty)

lemma force_single:
  "lazy_single_outcome q \<Longrightarrow> force q \<sigma> = Some (Inr (Callable p), \<sigma>') \<Longrightarrow> single_outcome p"
  by (cases q)
    (auto simp: run_defs thunk_single_outcome_def split: if_splits option.splits sum.splits prod.splits)

lemma single_alt:
  assumes "single_outcome pa" "lazy_single_outcome pb"
  shows "single_outcome (alt pa pb)"
  unfolding single_outcome_def
proof (intro allI impI)
  fix inp \<sigma> res \<sigma>'
  assume run: "alt pa pb inp \<sigma> = Some (Inr res, \<sigma>')"
  then obtain r1 \<sigma>1 where a: "pa inp \<sigma> = Some (Inr r1, \<sigma>1)"
    by (auto simp: alt_def and_then_def split: option.splits sum.splits prod.splits)
  show "length res \<le> 1"
  proof (cases "parserHasFailed r1")
    case False
    with run a have "res = r1" by (simp add: alt_def run_defs)
    with assms(1) a show ?thesis unfolding single_outcome_def by blast
  next
    case True
    with run a obtain fo \<sigma>2 where f: "force pb \<sigma>1 = Some (Inr fo, \<sigma>2)"
      and ap: "apply_forced fo inp \<sigma>2 = Some (Inr res, \<sigma>')"
      by (auto simp: alt_def and_then_def returns_def split: option.splits sum.splits prod.splits)
    show ?thesis
    proof (cases fo)
      case (Callable p)
      with f assms(2) have "single_outcome p" by (auto dest: force_single)
      with ap Callable show ?thesis unfolding single_outcome_def by auto
    next
      case (NotCallable r)
      with ap show ?thesis by (simp add: throws_def)
    qed
  qed
qed

lemma thunk_single_step:
  assumes "thunk_single_outcome acc" "thunk_single_outcome nxt"
  shows "thunk_single_outcome (\<lambda>_. and_then (acc ()) (\<lambda>a. returns (alt a (ThunkValue nxt))))"
  unfolding thunk_single_outcome_def
proof (intro allI impI)
  fix \<sigma> p \<sigma>'
  assume "and_then (acc ()) (\<lambda>a. returns (alt a (ThunkValue nxt))) \<sigma> = Some (Inr p, \<sigma>')"
  then obtain a where "acc () \<sigma> = Some (Inr a, \<sigma>')" and p: "p = alt a (ThunkValue nxt)"
    by (auto simp: run_defs split: option.splits sum.splits prod.splits)
  with assms(1) have "single_outcome a" unfolding thunk_single_outcome_def by blast
  with assms(2) p show "single_outcome p" by (simp add: single_alt)
qed

lemma thunk_single_foldl:
  "thunk_single_outcome t \<Longrightarrow> \<forall>x \<in> set ts. thunk_single_outcome x \<Longrightarrow>
   thunk_single_outcome
     (foldl (\<lambda>acc curr. (\<lambda>_. and_then (acc ()) (\<lambda>a. returns (alt a (ThunkValue curr))))) t ts)"
  by (induction ts arbitrary: t) (simp_all add: thunk_single_step)

lemma single_alts:
  assumes "\<forall>t \<in> set ts. thunk_single_outcome t" "alts ts \<sigma> = Some (Inr p, \<sigma>')"
  shows "single_outcome p"
proof (cases ts)
  case Nil
  with assms(2) show ?thesis by (simp add: alts_def throws_def)
next
  case (Cons t ts')
  with assms(1) have "thunk_single_outcome
     (foldl (\<lambda>acc curr. (\<lambda>_. and_then (acc ()) (\<lambda>a. returns (alt a (ThunkValue curr))))) t ts')"
    by (simp add: thunk_single_foldl)
  with assms(2) Cons show ?thesis
    unfolding thunk_single_outcome_def by (auto simp add: alts_def)
qed

section \<open>Repetition: what \<open>many\<close> and \<open>some\<close> return\<close>











lemma many_take_ab: "many take_p ''ab'' () = Some (Inr [([''a'', ''b''], '''')], ())"
  by (simp add: many_def many_loop.simps take_p_def max_array_length_def run_defs)

lemma single_many: "single_outcome (many p)"
  unfolding single_outcome_def
proof (intro allI impI)
  fix inp \<sigma> res \<sigma>'
  assume "many p inp \<sigma> = Some (Inr res, \<sigma>')"
  then obtain out \<sigma>1 where "many_loop p [] inp out \<sigma>1 = Some (Inr res, \<sigma>')"
    by (auto simp: many_def and_then_def split: option.splits sum.splits prod.splits)
  from many_loop_returns_one [OF this] show "length res \<le> 1" by auto
qed

text \<open>
  What \<open>many(take)\<close> does on every input: all the characters, unless there are more of
  them than an array holds.
\<close>

lemma many_loop_take_p:
  "length result \<le> max_array_length \<Longrightarrow>
   many_loop take_p result cur (if t = [] then [] else [([t ! 0], drop 1 t)]) \<sigma> =
     (if length result + length t \<le> max_array_length
      then Some (Inr [(result @ map (\<lambda>c. [c]) t, if t = [] then cur else '''')], \<sigma>)
      else Some (Inl RangeError, \<sigma>))"
proof (induction t arbitrary: result cur)
  case Nil
  then show ?case by (simp add: many_loop_done)
next
  case (Cons c t)
  show ?case
  proof (cases "length result < max_array_length")
    case False
    with Cons.prems show ?thesis by (simp add: many_loop_full)
  next
    case True
    have run: "take_p (c # t) \<sigma> = Some (Inr [([c], t)], \<sigma>)"
      and next_run: "take_p t \<sigma> = Some (Inr (if t = [] then [] else [([t ! 0], drop 1 t)]), \<sigma>)"
      by (simp_all add: take_p_def returns_def)
    have "many_loop take_p result cur [([c], t)] \<sigma>
        = many_loop take_p (result @ [[c]]) t (if t = [] then [] else [([t ! 0], drop 1 t)]) \<sigma>"
      using True next_run by (intro many_loop_step) simp_all
    also from True have "length (result @ [[c]]) \<le> max_array_length" by simp
    from Cons.IH [OF this, of t]
    have "many_loop take_p (result @ [[c]]) t (if t = [] then [] else [([t ! 0], drop 1 t)]) \<sigma>
        = (if length result + length (c # t) \<le> max_array_length
           then Some (Inr [(result @ map (\<lambda>c. [c]) (c # t), '''')], \<sigma>)
           else Some (Inl RangeError, \<sigma>))"
      by simp
    finally show ?thesis by simp
  qed
qed

lemma single_some: "single_outcome (some p)"
  unfolding single_outcome_def
proof (intro allI impI)
  fix inp \<sigma> res \<sigma>'
  assume "some p inp \<sigma> = Some (Inr res, \<sigma>')"
  then obtain r where "many p inp \<sigma> = Some (Inr r, \<sigma>')" and "res = [] \<or> res = r"
    by (auto simp: some_def run_defs
        split: option.splits sum.splits prod.splits list.splits if_splits)
  with single_many [of p] show "length res \<le> 1"
    unfolding single_outcome_def by auto
qed

lemma single_token: "single_outcome (token p)"
  by (simp add: token_def liftAs3_def single_ap)

section \<open>Ordered choice over deferred alternatives\<close>

lemma and_then_returns_left: "and_then (returns x) k = k x"
  by (rule ext) (simp add: run_defs)

lemma and_then_returns_right: "and_then m returns = m"
  by (rule ext) (simp add: run_defs split: option.splits sum.splits prod.splits)

lemma and_then_returns_right': "and_then m (\<lambda>x. returns x) = m"
  by (rule ext) (simp add: run_defs split: option.splits sum.splits prod.splits)

lemma and_then_assoc: "and_then (and_then m f) g = and_then m (\<lambda>x. and_then (f x) g)"
  by (rule ext) (simp add: run_defs split: option.splits sum.splits prod.splits)

lemma try_next_Nil: "try_next [] inp = returns"
  by (rule ext) simp

lemma try_next_snoc:
  "try_next (ts @ [t]) inp r =
     and_then (try_next ts inp r)
       (\<lambda>res. if parserHasFailed res then and_then (t ()) (\<lambda>p. p inp) else returns res)"
proof (induction ts arbitrary: r)
  case Nil
  show ?case
    by (simp add: and_then_returns_left and_then_returns_right try_next_Nil cong: if_cong)
next
  case (Cons t' ts)
  have "\<And>p. and_then (p inp) (try_next (ts @ [t]) inp) =
      and_then (p inp) (\<lambda>r. and_then (try_next ts inp r)
       (\<lambda>res. if parserHasFailed res then and_then (t ()) (\<lambda>p. p inp) else returns res))"
    using Cons.IH by presburger
  then show ?case
    by (simp add: and_then_returns_left and_then_assoc)
qed

lemma try_next_snoc_fun:
  "try_next (ts @ [t]) inp =
     (\<lambda>r. and_then (try_next ts inp r)
       (\<lambda>res. if parserHasFailed res then and_then (t ()) (\<lambda>p. p inp) else returns res))"
  by (rule ext) (rule try_next_snoc)

lemma alt_thunk_run:
  "alt pa (ThunkValue t) inp =
     and_then (pa inp)
       (\<lambda>res. if parserHasFailed res then and_then (t ()) (\<lambda>p. p inp) else returns res)"
  by (simp add: alt_def and_then_assoc and_then_returns_left cong: if_cong)

lemma foldl_alt_try_next:
  fixes t1 :: "unit \<Rightarrow> ('s, ('s, 'a) Parser) run"
  shows "foldl (\<lambda>acc curr. (\<lambda>_. and_then (acc ()) (\<lambda>a. returns (alt a (ThunkValue curr))))) t1 ts ()
     = and_then (t1 ()) (\<lambda>p1. returns (\<lambda>inp. and_then (p1 inp) (try_next ts inp)))"
proof (induction ts rule: rev_induct)
  case Nil
  have "\<And>p1 :: ('s, 'a) Parser. (\<lambda>inp. and_then (p1 inp) (try_next [] inp)) = p1"
    by (rule ext) (simp add: and_then_returns_right try_next_Nil)
  then show ?case by (simp add: and_then_returns_right')
next
  case (snoc t ts)
  have "\<And>p1 :: ('s, 'a) Parser. alt (\<lambda>inp. and_then (p1 inp) (try_next ts inp)) (ThunkValue t)
      = (\<lambda>inp. and_then (p1 inp) (try_next (ts @ [t]) inp))"
    by (rule ext) (simp add: alt_thunk_run try_next_snoc_fun and_then_assoc)
  with snoc show ?case
    by (simp add: and_then_assoc and_then_returns_left)
qed

lemma alts_try_next:
  "alts (t1 # ts) = and_then (t1 ()) (\<lambda>p1. returns (\<lambda>inp. and_then (p1 inp) (try_next ts inp)))"
  by (simp add: alts_def foldl_alt_try_next)


lemma probe_run:
  "and_then (probe k (effect_free r) ()) (\<lambda>p. and_then (p inp) K) c = K (r inp) (c(k := Suc (c k)))"
  by (simp add: probe_def effect_free_def run_defs)

lemma try_next_probes:
  "\<exists>res'. try_next (map (\<lambda>i. probe i (effect_free (rs ! i))) [k..<n]) inp res c =
     Some (Inr res',
       (\<lambda>i. if k \<le> i \<and> i < n \<and> parserHasFailed res \<and> (\<forall>j. k \<le> j \<and> j < i \<longrightarrow> (rs ! j) inp = [])
            then Suc (c i) else c i))"
proof (induction "n - k" arbitrary: k res c)
  case 0
  then have e: "[k..<n] = []" by simp
  have "try_next (map (\<lambda>i. probe i (effect_free (rs ! i))) [k..<n]) inp res c
      = Some (Inr res, c)"
    unfolding e by (simp add: returns_def)
  moreover have "(\<lambda>i. if k \<le> i \<and> i < n \<and> parserHasFailed res
        \<and> (\<forall>j. k \<le> j \<and> j < i \<longrightarrow> (rs ! j) inp = []) then Suc (c i) else c i) = c"
    using 0 by (auto simp: fun_eq_iff)
  ultimately show ?case by simp
next
  case (Suc m)
  then have kn: "k < n" and m: "m = n - Suc k" by simp_all
  then have upt: "[k..<n] = k # [Suc k..<n]" by (simp add: upt_conv_Cons)
  show ?case
  proof (cases "parserHasFailed res")
    case False
    then have "(\<lambda>i. if k \<le> i \<and> i < n \<and> parserHasFailed res
        \<and> (\<forall>j. k \<le> j \<and> j < i \<longrightarrow> (rs ! j) inp = []) then Suc (c i) else c i) = c"
      by (auto simp: fun_eq_iff)
    moreover have "try_next (map (\<lambda>i. probe i (effect_free (rs ! i))) [k..<n]) inp res c
        = Some (Inr res, c)"
      using False upt by (simp add: returns_def)
    ultimately show ?thesis by simp
  next
    case True
    let ?c1 = "c(k := Suc (c k))"
    from Suc.hyps(1) [OF m, of "(rs ! k) inp" ?c1] obtain res' where
      ih: "try_next (map (\<lambda>i. probe i (effect_free (rs ! i))) [Suc k..<n]) inp ((rs ! k) inp) ?c1 =
        Some (Inr res',
          (\<lambda>i. if Suc k \<le> i \<and> i < n \<and> parserHasFailed ((rs ! k) inp)
                  \<and> (\<forall>j. Suc k \<le> j \<and> j < i \<longrightarrow> (rs ! j) inp = [])
               then Suc (?c1 i) else ?c1 i))"
      by blast
    have same: "(\<lambda>i. if Suc k \<le> i \<and> i < n \<and> parserHasFailed ((rs ! k) inp)
                  \<and> (\<forall>j. Suc k \<le> j \<and> j < i \<longrightarrow> (rs ! j) inp = [])
               then Suc (?c1 i) else ?c1 i)
        = (\<lambda>i. if k \<le> i \<and> i < n \<and> parserHasFailed res
                  \<and> (\<forall>j. k \<le> j \<and> j < i \<longrightarrow> (rs ! j) inp = [])
               then Suc (c i) else c i)"
    proof (rule ext)
      fix i
      have "(\<forall>j. k \<le> j \<and> j < i \<longrightarrow> (rs ! j) inp = []) \<longleftrightarrow>
          (k < i \<longrightarrow> (rs ! k) inp = []) \<and> (\<forall>j. Suc k \<le> j \<and> j < i \<longrightarrow> (rs ! j) inp = [])"
        by (metis Suc_leI le_eq_less_or_eq Suc_le_lessD less_imp_le_nat)
      with True kn show "(if Suc k \<le> i \<and> i < n \<and> parserHasFailed ((rs ! k) inp)
                  \<and> (\<forall>j. Suc k \<le> j \<and> j < i \<longrightarrow> (rs ! j) inp = [])
               then Suc (?c1 i) else ?c1 i)
        = (if k \<le> i \<and> i < n \<and> parserHasFailed res
                  \<and> (\<forall>j. k \<le> j \<and> j < i \<longrightarrow> (rs ! j) inp = [])
               then Suc (c i) else c i)"
        by (cases "i = k") (auto simp: parserHasFailed_def)
    qed
    have "try_next (map (\<lambda>i. probe i (effect_free (rs ! i))) [k..<n]) inp res c
        = try_next (map (\<lambda>i. probe i (effect_free (rs ! i))) [Suc k..<n]) inp ((rs ! k) inp) ?c1"
      using True upt by (simp add: probe_run)
    with ih same show ?thesis by simp
  qed
qed

lemma alts_probes:
  assumes "2 \<le> length rs"
  shows "\<exists>built. alts (probes rs) c0 = Some (Inr built, c0(0 := Suc (c0 0)))
     \<and> (\<forall>inp c. \<exists>res. built inp c = Some (Inr res,
           (\<lambda>i. if 1 \<le> i \<and> i < length rs \<and> (\<forall>j<i. (rs ! j) inp = []) then Suc (c i) else c i)))"
proof -
  let ?rest = "map (\<lambda>i. probe i (effect_free (rs ! i))) [Suc 0..<length rs]"
  let ?built = "\<lambda>inp. and_then (effect_free (rs ! 0) inp) (try_next ?rest inp)"
  from assms have "[0..<length rs] = 0 # [Suc 0..<length rs]"
    by (subst upt_conv_Cons) auto
  then have split: "probes rs = probe 0 (effect_free (rs ! 0)) # ?rest"
    by (simp add: probes_def)
  have build: "alts (probes rs) c0 = Some (Inr ?built, c0(0 := Suc (c0 0)))"
    unfolding split alts_try_next by (simp add: probe_def run_defs)
  have "\<exists>res. ?built inp c = Some (Inr res,
           (\<lambda>i. if 1 \<le> i \<and> i < length rs \<and> (\<forall>j<i. (rs ! j) inp = []) then Suc (c i) else c i))"
    for inp c
  proof -
    from try_next_probes [of rs "Suc 0" "length rs" inp "(rs ! 0) inp" c] obtain res' where
      r: "try_next ?rest inp ((rs ! 0) inp) c = Some (Inr res',
        (\<lambda>i. if Suc 0 \<le> i \<and> i < length rs \<and> parserHasFailed ((rs ! 0) inp)
              \<and> (\<forall>j. Suc 0 \<le> j \<and> j < i \<longrightarrow> (rs ! j) inp = []) then Suc (c i) else c i))"
      by blast
    have "(\<lambda>i. if Suc 0 \<le> i \<and> i < length rs \<and> parserHasFailed ((rs ! 0) inp)
              \<and> (\<forall>j. Suc 0 \<le> j \<and> j < i \<longrightarrow> (rs ! j) inp = []) then Suc (c i) else c i)
        = (\<lambda>i. if 1 \<le> i \<and> i < length rs \<and> (\<forall>j<i. (rs ! j) inp = []) then Suc (c i) else c i)"
    proof (rule ext)
      fix i
      have "Suc 0 \<le> i \<Longrightarrow> (\<forall>j<i. (rs ! j) inp = []) \<longleftrightarrow>
          (rs ! 0) inp = [] \<and> (\<forall>j. Suc 0 \<le> j \<and> j < i \<longrightarrow> (rs ! j) inp = [])"
        by (metis Suc_le_eq not_less_eq_eq not_gr_zero le0)
      then show "(if Suc 0 \<le> i \<and> i < length rs \<and> parserHasFailed ((rs ! 0) inp)
              \<and> (\<forall>j. Suc 0 \<le> j \<and> j < i \<longrightarrow> (rs ! j) inp = []) then Suc (c i) else c i)
        = (if 1 \<le> i \<and> i < length rs \<and> (\<forall>j<i. (rs ! j) inp = []) then Suc (c i) else c i)"
        by (auto simp: parserHasFailed_def)
    qed
    with r show ?thesis by (simp add: effect_free_def run_defs)
  qed
  with build show ?thesis by blast
qed

lemma alt_deferred_is_alt_on_thunk: "alt_deferred pa t = alt pa (ThunkValue t)"
  by (rule ext) (simp add: alt_deferred_def alt_thunk_run parserHasFailed_def)

section \<open>The claims\<close>

text \<open>
  C1.  Every parser built from the exported primitives and combinators hands back at most
  one entry, on every input: the primitives do, and every combinator does when the
  parsers it is given do.  (\<open>liftAs\<close> with one or more parsers is \<open>fmap\<close> followed by
  \<open>ap\<close>s, and neither depends on its arguments for this.)
\<close>

theorem at_most_one_outcome:
  fixes p :: "('s, 'a) Parser" and fn :: "'a \<Rightarrow> ('s, 'b) Parser"
    and pf :: "('s, 'c \<Rightarrow> 'd) Parser" and pa :: "('s, 'c) Parser"
    and q0 :: "('s, 'e) Parser"
    and f1 :: "'f \<Rightarrow> 'g" and p1 :: "('s, 'f) Parser"
    and f2 :: "'h \<Rightarrow> 'i \<Rightarrow> 'j" and p2 :: "('s, 'h) Parser" and p2' :: "('s, 'i) Parser"
    and f3 :: "'k \<Rightarrow> 'l \<Rightarrow> 'm \<Rightarrow> 'n" and p3 :: "('s, 'k) Parser" and p3' :: "('s, 'l) Parser"
    and p3'' :: "('s, 'm) Parser"
    and first :: "('s, 'o) Parser" and second :: "('s, 'o) LazyVal"
    and ts :: "(unit \<Rightarrow> ('s, ('s, 'p) Parser) run) list" and built :: "('s, 'p) Parser"
    and pm :: "('s, 'q) Parser" and ps :: "('s, 'r) Parser" and pt :: "('s, 't) Parser"
    and v :: 'u
  shows "single_outcome (pure v :: ('s, 'u) Parser)
    \<and> single_outcome (empty :: ('s, 'u) Parser)
    \<and> ((\<forall>x. single_outcome (fn x)) \<longrightarrow> single_outcome (bind p fn))
    \<and> single_outcome (ap pf pa)
    \<and> (single_outcome q0 \<longrightarrow> single_outcome (liftAs0 q0))
    \<and> single_outcome (liftAs1 f1 p1)
    \<and> single_outcome (liftAs2 f2 p2 p2')
    \<and> single_outcome (liftAs3 f3 p3 p3' p3'')
    \<and> (single_outcome first \<and> lazy_single_outcome second \<longrightarrow> single_outcome (alt first second))
    \<and> ((\<forall>t \<in> set ts. thunk_single_outcome t) \<and> alts ts \<sigma> = Some (Inr built, \<sigma>')
          \<longrightarrow> single_outcome built)
    \<and> single_outcome (many pm)
    \<and> single_outcome (some ps)
    \<and> single_outcome (take_p :: ('s, string) Parser)
    \<and> single_outcome (peek :: ('s, string) Parser)
    \<and> single_outcome (sat pred :: ('s, string) Parser)
    \<and> single_outcome (char c :: ('s, string) Parser)
    \<and> single_outcome (sentence str :: ('s, string) Parser)
    \<and> single_outcome (whitespace :: ('s, string) Parser)
    \<and> single_outcome (token pt)"
proof -
  have "(\<forall>x. single_outcome (fn x)) \<longrightarrow> single_outcome (bind p fn)"
    by (simp add: single_bind)
  moreover have "single_outcome first \<and> lazy_single_outcome second
      \<longrightarrow> single_outcome (alt first second)"
    by (simp add: single_alt)
  moreover have "(\<forall>t \<in> set ts. thunk_single_outcome t) \<and> alts ts \<sigma> = Some (Inr built, \<sigma>')
      \<longrightarrow> single_outcome built"
    using single_alts [of ts \<sigma> built \<sigma>'] by blast
  ultimately show ?thesis
    by (simp add: single_pure single_empty single_ap single_fmap liftAs0_def liftAs1_def
        liftAs2_def liftAs3_def single_many single_some single_take_p single_peek single_sat
        char_def whitespace_def single_sentence single_token)
qed

theorem at_most_one_outcome_witness:
  "(\<exists>res. alt (char ''*'') (ParserValue 1 peek (throws TypeError)) ''-x'' () = Some (Inr res, ())
          \<and> length res \<le> 1)
   \<and> (\<exists>res. many take_p ''ab'' () = Some (Inr res, ()) \<and> length res \<le> 1)"
proof -
  let ?first = "char ''*'' :: (unit, string) Parser"
  let ?second = "ParserValue 1 peek (throws TypeError) :: (unit, string) LazyVal"
  have run: "alt ?first ?second ''-x'' () = Some (Inr [(''-'', ''-x'')], ())"
    by (simp add: alt_def char_def sat_def bind_def take_p_def eq_def parserHasFailed_def
        isImmediate_def typeof_def peek_def pure_def empty_def run_defs)
  have "single_outcome (alt ?first ?second)"
    using at_most_one_outcome [where first = "?first" and second = "?second" and c = "''*''"]
    by (metis lazy_single_outcome.simps(1))
  from run this [unfolded single_outcome_def, rule_format, OF run]
  have one: "\<exists>res. alt ?first ?second ''-x'' () = Some (Inr res, ()) \<and> length res \<le> 1"
    by (intro exI conjI)
  have loop: "many take_p ''ab'' () = Some (Inr [([''a'', ''b''], '''')], ())"
    by (rule many_take_ab)
  have "single_outcome (many (take_p :: (unit, string) Parser))"
    using at_most_one_outcome [where pm = "take_p :: (unit, string) Parser"] by metis
  from loop this [unfolded single_outcome_def, rule_format, OF loop]
  have "\<exists>res. many take_p ''ab'' () = Some (Inr res, ()) \<and> length res \<le> 1"
    by (intro exI conjI)
  with one show ?thesis by (intro conjI)
qed

text \<open>
  C2, at the input where the code departs from it: with both arguments the parser that
  \<open>empty()\<close> returns, the first fails, and the second is not run on the input (which
  would give the empty list): the call throws.
\<close>

theorem alt_empty_empty_throws:
  "alt empty emptyValue ''x'' () = Some (Inl TypeError, ())
   \<and> empty ''x'' () = Some (Inr ([] :: (string \<times> string) list), ())"
  by (simp add: alt_def empty_def emptyValue_def parserHasFailed_def isImmediate_def
      typeof_def run_defs)

text \<open>
  C3 (as amended).  Building \<open>alts(t1, t2, ..., tn)\<close> calls the first deferred
  alternative, once, and none of the others; the parser it builds runs the first
  alternative's parser and then goes through the others in order, calling a deferred
  alternative only when the result so far is a failure.  With counting probes as the
  alternatives, numbered from \<open>0\<close>: the construction adds one to the counter \<open>0\<close> and
  leaves the others; one invocation adds one to the counter \<open>i \<ge> 1\<close> when all the
  alternatives before \<open>i\<close> fail on the input, leaves it otherwise, and leaves the
  counter \<open>0\<close>.
\<close>

theorem alts_forces_first_then_on_demand:
  fixes t1 t2 :: "unit \<Rightarrow> ('s, ('s, 'a) Parser) run" and rs :: "(string \<Rightarrow> 'b ParserRes) list"
  shows "alts (t1 # t2 # ts) =
        and_then (t1 ()) (\<lambda>p1. returns (\<lambda>inp. and_then (p1 inp) (try_next (t2 # ts) inp)))
    \<and> (2 \<le> length rs \<longrightarrow>
         (\<exists>built. alts (probes rs) c0 = Some (Inr built, c0(0 := Suc (c0 0)))
            \<and> (\<forall>inp c. \<exists>res. built inp c = Some (Inr res,
                 (\<lambda>i. if 1 \<le> i \<and> i < length rs \<and> (\<forall>j<i. (rs ! j) inp = [])
                      then Suc (c i) else c i)))))"
  using alts_probes [of rs c0] by (simp add: alts_try_next)

theorem alts_forces_first_then_on_demand_witness:
  "\<exists>built c1. alts (probes [\<lambda>inp. [], \<lambda>inp. [(''a'', inp)], \<lambda>inp. []]) (\<lambda>_. 0)
        = Some (Inr built, c1)
     \<and> c1 0 = 1 \<and> c1 1 = 0 \<and> c1 2 = 0
     \<and> (\<exists>res c2. built ''x'' c1 = Some (Inr res, c2) \<and> c2 0 = 1 \<and> c2 1 = 1 \<and> c2 2 = 0)"
proof -
  let ?rs = "[\<lambda>inp. [], \<lambda>inp. [(''a'', inp)], \<lambda>inp. []] :: (string \<Rightarrow> string ParserRes) list"
  let ?c1 = "(\<lambda>_. 0)(0 := Suc 0) :: nat \<Rightarrow> nat"
  let ?c2 = "\<lambda>i. if 1 \<le> i \<and> i < length ?rs \<and> (\<forall>j<i. (?rs ! j) ''x'' = [])
              then Suc (?c1 i) else ?c1 i"
  have "2 \<le> length ?rs" by simp
  with alts_forces_first_then_on_demand [where rs = ?rs and ?c0.0 = "\<lambda>_. 0"]
  obtain built where b: "alts (probes ?rs) (\<lambda>_. 0) = Some (Inr built, ?c1)"
    and r: "\<forall>inp c. \<exists>res. built inp c = Some (Inr res,
         (\<lambda>i. if 1 \<le> i \<and> i < length ?rs \<and> (\<forall>j<i. (?rs ! j) inp = [])
              then Suc (c i) else c i))"
    by blast
  from r obtain res where run: "built ''x'' ?c1 = Some (Inr res, ?c2)" by blast
  have c20: "?c2 0 = 1" by simp
  have c21: "?c2 1 = 1" by simp
  have c22: "?c2 2 = 0" by (simp add: numeral_2_eq_2 All_less_Suc)
  have inner: "\<exists>res c2. built ''x'' ?c1 = Some (Inr res, c2) \<and> c2 0 = 1 \<and> c2 1 = 1 \<and> c2 2 = 0"
    by (rule exI [of _ res], rule exI [of _ ?c2]) (intro conjI run c20 c21 c22)
  have "alts (probes ?rs) (\<lambda>_. 0) = Some (Inr built, ?c1)
     \<and> ?c1 0 = 1 \<and> ?c1 1 = 0 \<and> ?c1 2 = 0
     \<and> (\<exists>res c2. built ''x'' ?c1 = Some (Inr res, c2) \<and> c2 0 = 1 \<and> c2 1 = 1 \<and> c2 2 = 0)"
    using b inner by simp
  then show ?thesis by (intro exI [of _ built] exI [of _ ?c1])
qed

text \<open>
  The claim as stated fails for the first alternative: building the parser forces it.
  With two counting probes, the counters \<open>0\<close> and \<open>1\<close> after the construction are \<open>1\<close> and
  \<open>0\<close>.
\<close>

theorem alts_forces_first_at_construction:
  "map_option (\<lambda>(r, c). (c 0, c 1))
     (alts (probes [\<lambda>inp. [], \<lambda>inp. [(''a'', inp)]]) (\<lambda>_. 0)) = Some (1, 0)"
proof -
  let ?rs = "[\<lambda>inp. [], \<lambda>inp. [(''a'', inp)]] :: (string \<Rightarrow> string ParserRes) list"
  have "2 \<le> length ?rs" by simp
  from alts_probes [OF this, of "\<lambda>_. 0"] obtain built where
    "alts (probes ?rs) (\<lambda>_. 0) = Some (Inr built, (\<lambda>_. 0)(0 := Suc 0))"
    by blast
  then show ?thesis by simp
qed




text \<open>
  C5 (as amended).  When the parser returns a result list, \<open>unpack\<close> returns the value of
  its first entry if that entry exists and its remainder is the empty string, and
  \<open>undefined\<close> in every other case (an empty list, or a first entry with input left
  over).  So a value other than \<open>undefined\<close> is returned if and only if the parser
  succeeded with that value and an empty remainder.
\<close>

theorem unpack_total_consumption:
  assumes "parser inp \<sigma> = Some (Inr res, \<sigma>')"
  shows "unpack parser inp \<sigma> =
       Some (Inr (if res \<noteq> [] \<and> snd (res ! 0) = '''' then fst (res ! 0) else Undefined), \<sigma>')
     \<and> (unpack parser inp \<sigma> = Some (Inr (Defined v), \<sigma>')
          \<longleftrightarrow> (\<exists>more. res = (Defined v, '''') # more))"
  using assms by (cases res) (auto simp: unpack_def parserHasFailed_def run_defs)

theorem unpack_total_consumption_witness:
  "unpack (fmap Defined (sentence ''<p>'')) ''<p>'' () = Some (Inr (Defined ''<p>''), ())
   \<and> unpack (fmap Defined (sentence ''<p>'')) ''<p></p>'' () = Some (Inr Undefined, ())
   \<and> unpack (fmap Defined (sentence ''<p>'')) ''<div>'' () = Some (Inr Undefined, ())"
proof -
  have 1: "fmap Defined (sentence ''<p>'') ''<p>'' () = Some (Inr [(Defined ''<p>'', '''')], ())"
    and 2: "fmap Defined (sentence ''<p>'') ''<p></p>'' ()
        = Some (Inr [(Defined ''<p>'', ''</p>'')], ())"
    and 3: "fmap Defined (sentence ''<p>'') ''<div>'' () = Some (Inr [], ())"
    by (simp_all add: fmap_def sentence_def parserHasFailed_def run_defs)
  from unpack_total_consumption
      [of "fmap Defined (sentence ''<p>'')" "''<p>''" "()" _ "()" "''<p>''", OF 1]
    unpack_total_consumption
      [of "fmap Defined (sentence ''<p>'')" "''<p></p>''" "()" _ "()" "''<p>''", OF 2]
    unpack_total_consumption
      [of "fmap Defined (sentence ''<p>'')" "''<div>''" "()" _ "()" "''<p>''", OF 3]
  show ?thesis by simp
qed

text \<open>
  The claim as stated fails where the parsed value is \<open>undefined\<close> itself: \<open>tap(f)\<close>
  succeeds on \<open>"x"\<close> with the value \<open>undefined\<close> and the remainder \<open>"x"\<close>, and \<open>unpack\<close>
  returns \<open>undefined\<close>, which is the parsed value, although the remainder is not empty;
  on the empty input, where the remainder is empty, it returns the same.  Likewise for
  \<open>pure(undefined)\<close>.
\<close>

theorem unpack_of_undefined_value:
  "tap (\<lambda>_. returns ()) ''x'' () = Some (Inr [(Undefined :: string or_undefined, ''x'')], ())
   \<and> unpack (tap (\<lambda>_. returns ()) :: (unit, string or_undefined) Parser) ''x'' ()
        = Some (Inr Undefined, ())
   \<and> unpack (tap (\<lambda>_. returns ()) :: (unit, string or_undefined) Parser) '''' ()
        = Some (Inr Undefined, ())
   \<and> pure (Undefined :: string or_undefined) ''x'' () = Some (Inr [(Undefined, ''x'')], ())
   \<and> unpack (pure (Undefined :: string or_undefined)) ''x'' () = Some (Inr Undefined, ())"
  by (simp add: unpack_def tap_def pure_def parserHasFailed_def run_defs)




text \<open>
  C7.  \<open>sat(pred)(s)\<close> succeeds exactly when \<open>s\<close> is not empty and \<open>pred\<close> holds of its
  first character; it then hands back that character and the rest of \<open>s\<close>.  Otherwise
  the result is the empty list: nothing of what \<open>take\<close> consumed is kept.
\<close>

theorem sat_first_character:
  "sat pred s =
     (if s \<noteq> [] \<and> pred [s ! 0] then returns [([s ! 0], drop 1 s)] else returns [])"
  by (rule ext, cases s)
    (simp_all add: sat_def bind_def parserHasFailed_def pure_def empty_def take_p_def run_defs)

theorem sat_first_character_witness:
  "sat (\<lambda>c. c = ''0'') ''0'' () = Some (Inr [(''0'', '''')], ())
   \<and> sat (\<lambda>c. c = ''0'') ''B'' () = Some (Inr [], ())
   \<and> sat (\<lambda>c. c = ''0'') '''' () = Some (Inr [], ())"
  using sat_first_character [of "\<lambda>c. c = ''0''" "''0''", THEN fun_cong, of "()"]
    sat_first_character [of "\<lambda>c. c = ''0''" "''B''", THEN fun_cong, of "()"]
    sat_first_character [of "\<lambda>c. c = ''0''" "''''", THEN fun_cong, of "()"]
  by (simp add: returns_def)

text \<open>
  C8.  Left identity of sequencing: \<open>bind(pure(v), f)(s)\<close> is \<open>f(v)(s)\<close>.
\<close>

theorem bind_pure_left_identity: "bind (pure v) f s = f v s"
  by (rule ext) (simp add: bind_def pure_def parserHasFailed_def run_defs)

theorem bind_pure_left_identity_witness:
  "bind (pure ''x'') char ''xy'' () = Some (Inr [(''x'', ''y'')], ())"
  using bind_pure_left_identity [of "''x''" char "''xy''", THEN fun_cong, of "()"]
  by (simp add: char_def sat_def bind_def take_p_def pure_def empty_def eq_def
      parserHasFailed_def run_defs)

text \<open>
  C9.  \<open>isImmediate\<close> holds of a value exactly when it is not a function declaring no
  parameter.  So \<open>force\<close> calls the parser that \<open>empty()\<close> returns, and obtains its result
  list, which is not a function; when the first parser of \<open>alt\<close> fails and the second
  argument is that parser, applying the list to the input throws a \<open>TypeError\<close>.
\<close>

theorem alt_empty_value_type_error:
  fixes t :: "('s, 'a) LazyVal" and p :: "('s, 'b) Parser"
  shows "(isImmediate t \<longleftrightarrow> \<not> (typeof t = ''function'' \<and> fn_length t = 0))
    \<and> force (emptyValue :: ('s, 'b) LazyVal) \<sigma>0 = Some (Inr (NotCallable []), \<sigma>0)
    \<and> (p s \<sigma> = Some (Inr [], \<sigma>') \<longrightarrow> alt p emptyValue s \<sigma> = Some (Inl TypeError, \<sigma>'))"
  by (auto simp: isImmediate_def typeof_def emptyValue_def alt_def parserHasFailed_def run_defs)

theorem alt_empty_value_type_error_witness:
  "alt (char ''*'') emptyValue ''-'' () = Some (Inl TypeError, ())
   \<and> \<not> isImmediate (emptyValue :: (unit, string) LazyVal)"
proof -
  have "char ''*'' ''-'' () = Some (Inr [], ())"
    by (simp add: char_def sat_def bind_def take_p_def pure_def empty_def eq_def
        parserHasFailed_def run_defs)
  with alt_empty_value_type_error [of "emptyValue :: (unit, string) LazyVal" "()" "char ''*''" "''-''" "()" "()"]
  show ?thesis by (simp add: typeof_def emptyValue_def)
qed

text \<open>
  C10.  \<open>takeDigit\<close> fails on the empty input only: on any other input it succeeds with
  \<open>Number\<close> of the first character, whatever that character is, and the rest of the
  input.
\<close>

theorem takeDigit_any_character:
  "takeDigit Number s =
     (if s = [] then returns [] else returns [(Number [s ! 0], drop 1 s)])"
  by (rule ext, cases s)
    (simp_all add: takeDigit_def liftAs1_def fmap_def parserHasFailed_def take_p_def run_defs)

theorem takeDigit_any_character_witness:
  "takeDigit length ''x1'' () = Some (Inr [(1, ''1'')], ())
   \<and> takeDigit length '''' () = Some (Inr [], ())"
  using takeDigit_any_character [of length "''x1''", THEN fun_cong, of "()"]
    takeDigit_any_character [of length "''''", THEN fun_cong, of "()"]
  by (simp add: returns_def)

section \<open>Further properties of ordered choice\<close>

text \<open>
  What \<open>alt\<close> does when its first parser succeeds, whatever the second
  argument is.
\<close>

theorem alt_first_success:
  "p s \<sigma> = Some (Inr res, \<sigma>') \<Longrightarrow> res \<noteq> [] \<Longrightarrow> alt p q s \<sigma> = Some (Inr res, \<sigma>')"
  by (simp add: alt_def parserHasFailed_def run_defs)

theorem alt_first_success_witness:
  "alt take_p (ThunkValue (\<lambda>_ \<sigma>. None)) ''<p>'' (0 :: nat) = Some (Inr [(''<'', ''p>'')], 0)
   \<and> alt take_p emptyValue ''<p>'' (0 :: nat) = Some (Inr [(''<'', ''p>'')], 0)"
proof -
  have "take_p ''<p>'' (0 :: nat) = Some (Inr [(''<'', ''p>'')], 0)"
    by (simp add: take_p_def returns_def)
  from alt_first_success [of take_p "''<p>''" 0 _ 0 "ThunkValue (\<lambda>_ \<sigma>. None)", OF this]
    alt_first_success [of take_p "''<p>''" 0 _ 0 emptyValue, OF this]
  show ?thesis by simp
qed

text \<open>
  When the first parser of \<open>alt\<close> fails, a deferred second argument
  is called once and the parser it yields runs on the original input, and a parser that
  declares a parameter runs on the original input as it is.
\<close>

theorem alt_falls_back_on_original_input:
  assumes "p s \<sigma> = Some (Inr [], \<sigma>')"
  shows "alt p (ThunkValue t) s \<sigma> = and_then (t ()) (\<lambda>pb. pb s) \<sigma>'
     \<and> alt_deferred p t s \<sigma> = and_then (t ()) (\<lambda>pb. pb s) \<sigma>'
     \<and> (n \<noteq> 0 \<longrightarrow> alt p (ParserValue n pb u) s \<sigma> = pb s \<sigma>')"
  using assms
  by (simp add: alt_deferred_is_alt_on_thunk alt_thunk_run and_then_def parserHasFailed_def)
    (simp add: alt_def isImmediate_def parserHasFailed_def run_defs)

theorem alt_falls_back_on_original_input_witness:
  "alt (char ''*'') (ThunkValue (probe 0 take_p)) ''-x'' (\<lambda>_. 0)
      = Some (Inr [(''-'', ''x'')], (\<lambda>_. 0)(0 := 1))
   \<and> alt (char ''*'') (ParserValue 1 take_p (throws TypeError)) ''-x'' (\<lambda>_ :: nat. 0 :: nat)
      = Some (Inr [(''-'', ''x'')], \<lambda>_. 0)"
proof -
  have "char ''*'' ''-x'' (\<lambda>_ :: nat. 0 :: nat) = Some (Inr [], \<lambda>_. 0)"
    by (simp add: char_def sat_def bind_def take_p_def pure_def empty_def eq_def
        parserHasFailed_def run_defs)
  from alt_falls_back_on_original_input
    [of "char ''*''" "''-x''" "\<lambda>_. 0" "\<lambda>_. 0" "probe 0 take_p" 1 take_p "throws TypeError", OF this]
  show ?thesis by (simp add: probe_def take_p_def run_defs)
qed

section \<open>Further properties of repetition\<close>

text \<open>
  \<open>many(take)\<close> on every input: all the characters, each as a string of its own, and
  nothing left over; a \<open>RangeError\<close> when there are more of them than an array holds.
\<close>

theorem many_take_all:
  "many take_p s \<sigma> =
     (if length s \<le> max_array_length then Some (Inr [(map (\<lambda>c. [c]) s, '''')], \<sigma>)
      else Some (Inl RangeError, \<sigma>))"
proof -
  have "take_p s \<sigma> = Some (Inr (if s = [] then [] else [([s ! 0], drop 1 s)]), \<sigma>)"
    by (simp add: take_p_def returns_def)
  then have "many take_p s \<sigma>
      = many_loop take_p [] s (if s = [] then [] else [([s ! 0], drop 1 s)]) \<sigma>"
    by (simp add: many_def and_then_def)
  also have "\<dots> = (if length s \<le> max_array_length
      then Some (Inr [(map (\<lambda>c. [c]) s, if s = [] then s else '''')], \<sigma>)
      else Some (Inl RangeError, \<sigma>))"
    using many_loop_take_p [of "[]" s s \<sigma>] by simp
  finally show ?thesis by (cases s) simp_all
qed

theorem many_take_all_witness:
  "many take_p ''<p>'' (0 :: nat) = Some (Inr [([''<'', ''p'', ''>''], '''')], 0)"
  using many_take_all [of "''<p>''" "0 :: nat"] by (simp add: max_array_length_def)

end
